theory Spec2Isabelle
  imports Main "HOL-Library.Word"
begin

section \<open>Go primitives used by both packages\<close>

text \<open>Go's \<^verbatim>\<open>int64\<close>.\<close>

type_synonym int64 = "64 word"

text \<open>
  Reading a Go map: \<^verbatim>\<open>m[k]\<close> gives the zero value of the element type for a key
  that is not in the map (also for a nil map); \<^verbatim>\<open>v, ok := m[k]\<close> is the map itself,
  a partial function.
\<close>

definition index :: "'v \<Rightarrow> (string \<rightharpoonup> 'v) \<Rightarrow> string \<Rightarrow> 'v" where
  "index zero m k = (case m k of None \<Rightarrow> zero | Some v \<Rightarrow> v)"

text \<open>\<^verbatim>\<open>strings.HasSuffix\<close> and \<^verbatim>\<open>strings.TrimSuffix\<close>, on byte strings.\<close>

definition HasSuffix :: "string \<Rightarrow> string \<Rightarrow> bool" where
  "HasSuffix s suffix =
     (length suffix \<le> length s \<and> drop (length s - length suffix) s = suffix)"

definition TrimSuffix :: "string \<Rightarrow> string \<Rightarrow> string" where
  "TrimSuffix s suffix =
     (if HasSuffix s suffix then take (length s - length suffix) s else s)"

section \<open>Package webserver: the handlers that pass out plugin data\<close>

subsection \<open>Data\<close>

text \<open>
  The per-plugin containers. The handlers read \<^verbatim>\<open>Config\<close>, \<^verbatim>\<open>Events\<close> and
  \<^verbatim>\<open>Counter\<close> of both kinds and \<^verbatim>\<open>Sites\<close>, \<^verbatim>\<open>Devices\<close> and \<^verbatim>\<open>Clients\<close> of an
  input. What the handlers only pass on (the config, an event group, the sites, devices
  and clients) is a value of the type variable \<open>'a\<close>, Go's \<^verbatim>\<open>interface{}\<close>. The embedded
  lock of a container is not a field here: taking and releasing it are effects, below.
\<close>

record 'a Output =
  Config :: 'a
  Events :: "string \<rightharpoonup> 'a"
  Counter :: "string \<rightharpoonup> int64"

record 'a Input = "'a Output" +
  Sites :: 'a
  Devices :: 'a
  Clients :: 'a

text \<open>
  The methods of the container's field types, which the handlers call and whose code is
  in another file of the package: they are parameters of the handlers.
\<close>

record 'a methods =
  Groups :: "(string \<rightharpoonup> 'a) \<Rightarrow> string \<Rightarrow> 'a"
  Devices_Filter :: "'a \<Rightarrow> string \<Rightarrow> 'a"
  Clients_Filter :: "'a \<Rightarrow> string \<Rightarrow> 'a"

record 'a webPlugins =
  Inputs :: "string \<rightharpoonup> 'a Input"
  Outputs :: "string \<rightharpoonup> 'a Output"

text \<open>
  Modelled from the spec: \<^verbatim>\<open>getInput\<close> and \<^verbatim>\<open>getOutput\<close> are in another file of
  the package. The spec's \<^verbatim>\<open>lookup(role, name)\<close> returns the instance registered
  under the name or a not-found signal (Go's nil), names being unique per role, and takes
  no plugin lock.
\<close>

definition getInput :: "'a webPlugins \<Rightarrow> string \<Rightarrow> 'a Input option" where
  "getInput p name = Inputs p name"

definition getOutput :: "'a webPlugins \<Rightarrow> string \<Rightarrow> 'a Output option" where
  "getOutput p name = Outputs p name"

text \<open>
  \<^verbatim>\<open>debug.BuildInfo\<close> with its dependency modules, and what \<^verbatim>\<open>s.Collect.Inputs("")\<close>
  and \<^verbatim>\<open>s.Collect.Outputs("")\<close> return: a Go map from plugin name to source path,
  given by its entries in the order the \<^verbatim>\<open>range\<close> loop visits them.
\<close>

record Module =
  Path :: string
  Version :: string

record BuildInfo =
  Deps :: "Module list"

record 'a Server =
  plugins :: "'a webPlugins"
  Collect_Inputs :: "(string \<times> string) list"
  Collect_Outputs :: "(string \<times> string) list"

text \<open>The local struct \<^verbatim>\<open>plugin\<close> of \<^verbatim>\<open>getPlugins\<close>.\<close>

datatype plugin = plugin (Name: string) (Version: string) (Path: string)

subsection \<open>Effects of a handler\<close>

text \<open>
  What is handed to \<^verbatim>\<open>handleJSON\<close>, by the Go type of the expression.
\<close>

datatype 'a json =
    JConfig 'a
  | JGroups 'a
  | JEvents "string \<rightharpoonup> 'a"
  | JEventGroup 'a
  | JCounter "string \<rightharpoonup> int64"
  | JSites 'a
  | JDevices 'a
  | JClients 'a

datatype role = input_role | output_role

text \<open>
  A handler returns nothing: it takes and releases the read lock of a container (named
  by its role and the name it was looked up under) and writes one response, through
  \<^verbatim>\<open>handleJSON\<close> or \<^verbatim>\<open>handleMissing\<close>. The model returns these effects in
  the order they happen.
\<close>

datatype 'a effect =
    RLock role string
  | RUnlock role string
  | handleJSON "'a json"
  | handleMissing

text \<open>\<^verbatim>\<open>mux.Vars(r)\<close>: a Go map from route variable to its text.\<close>

type_synonym vars = "string \<rightharpoonup> string"

subsection \<open>getPlugins\<close>

type_synonym descriptors = "string \<rightharpoonup> (string \<rightharpoonup> plugin)"

text \<open>
  The inner loop of the closure \<^verbatim>\<open>parse\<close>, over \<^verbatim>\<open>bi.Deps\<close>: the first module
  whose path is \<open>v\<close> gives the entry of \<open>k\<close> in \<^verbatim>\<open>i[name]\<close>, and the loop
  breaks; with no such module nothing is stored. A store into the nil map that a missing
  \<open>name\<close> gives panics in Go: that is the result \<open>None\<close>.
\<close>

fun scanDeps :: "Module list \<Rightarrow> string \<Rightarrow> string \<Rightarrow> string \<Rightarrow> descriptors \<Rightarrow> descriptors option" where
  "scanDeps [] name k v i = Some i"
| "scanDeps (d # ds) name k v i =
     (if Module.Path d = v then
        (case i name of
           None \<Rightarrow> None
         | Some m \<Rightarrow> Some (i(name \<mapsto> m(k \<mapsto> plugin k (Module.Version d) v))))
      else scanDeps ds name k v i)"

text \<open>The outer loop of \<^verbatim>\<open>parse\<close>, over the entries of \<^verbatim>\<open>values\<close>.\<close>

fun parse :: "Module list \<Rightarrow> string \<Rightarrow> (string \<times> string) list \<Rightarrow> descriptors \<Rightarrow> descriptors option" where
  "parse deps name [] i = Some i"
| "parse deps name ((k, v) # vals) i =
     (case scanDeps deps name k v i of
        None \<Rightarrow> None
      | Some i' \<Rightarrow> parse deps name vals i')"

text \<open>
  \<^verbatim>\<open>debug.ReadBuildInfo()\<close> gives a pointer (possibly nil) and a flag; they are the
  first two arguments.
\<close>

definition getPlugins :: "BuildInfo option \<Rightarrow> bool \<Rightarrow> 'a Server \<Rightarrow> descriptors option" where
  "getPlugins bi0 ok s =
     (let bi = (case (ok, bi0) of
                  (True, Some b) \<Rightarrow> b
                | _ \<Rightarrow> \<lparr>Deps = []\<rparr>);
          i = [''inputs'' \<mapsto> Map.empty, ''outputs'' \<mapsto> Map.empty]
      in case parse (Deps bi) ''inputs'' (Collect_Inputs s) i of
           None \<Rightarrow> None
         | Some i1 \<Rightarrow> parse (Deps bi) ''outputs'' (Collect_Outputs s) i1)"

subsection \<open>handleOutput and handleInput\<close>

text \<open>
  The \<^verbatim>\<open>switch\<close> of \<^verbatim>\<open>handleOutput\<close>, run with the read lock held: one response.
\<close>

definition outputSwitch :: "'a methods \<Rightarrow> 'a Output \<Rightarrow> string \<Rightarrow> string \<Rightarrow> 'a effect" where
  "outputSwitch M c sub val =
     (if sub = ''eventgroups'' then handleJSON (JGroups (Groups M (Events c) val))
      else if sub = ''events'' then
        (if val = [] then handleJSON (JEvents (Events c))
         else case Events c val of
                Some events \<Rightarrow> handleJSON (JEventGroup events)
              | None \<Rightarrow> handleMissing)
      else if sub = ''counters'' then
        (if val = [] then handleJSON (JCounter (Counter c))
         else handleJSON (JCounter [val \<mapsto> index 0 (Counter c) val]))
      else handleJSON (JConfig (Config c)))"

definition handleOutput :: "'a methods \<Rightarrow> 'a Server \<Rightarrow> vars \<Rightarrow> 'a effect list" where
  "handleOutput M s vars =
     (case getOutput (plugins s) (index [] vars ''output'') of
        None \<Rightarrow> [handleMissing]
      | Some c \<Rightarrow>
          [RLock output_role (index [] vars ''output''),
           outputSwitch M c (index [] vars ''sub'') (index [] vars ''value''),
           RUnlock output_role (index [] vars ''output'')])"

definition inputSwitch :: "'a methods \<Rightarrow> 'a Input \<Rightarrow> string \<Rightarrow> string \<Rightarrow> 'a effect" where
  "inputSwitch M c sub val =
     (if sub = ''eventgroups'' then handleJSON (JGroups (Groups M (Events c) val))
      else if sub = ''events'' then
        (if val = [] then handleJSON (JEvents (Events c))
         else case Events c val of
                Some events \<Rightarrow> handleJSON (JEventGroup events)
              | None \<Rightarrow> handleMissing)
      else if sub = ''sites'' then handleJSON (JSites (Sites c))
      else if sub = ''devices'' then handleJSON (JDevices (Devices_Filter M (Devices c) val))
      else if sub = ''clients'' then handleJSON (JClients (Clients_Filter M (Clients c) val))
      else if sub = ''counters'' then
        (if val \<noteq> [] then handleJSON (JCounter [val \<mapsto> index 0 (Counter c) val])
         else handleJSON (JCounter (Counter c)))
      else handleJSON (JConfig (Config c)))"

definition handleInput :: "'a methods \<Rightarrow> 'a Server \<Rightarrow> vars \<Rightarrow> 'a effect list" where
  "handleInput M s vars =
     (case getInput (plugins s) (index [] vars ''input'') of
        None \<Rightarrow> [handleMissing]
      | Some c \<Rightarrow>
          [RLock input_role (index [] vars ''input''),
           inputSwitch M c (index [] vars ''sub'') (index [] vars ''value''),
           RUnlock input_role (index [] vars ''input'')])"

section \<open>Package poller: resolving the configuration\<close>

subsection \<open>Data\<close>

record Poller =
  Plugins :: "string list"
  Debug :: bool
  Quiet :: bool

text \<open>
  Of \<^verbatim>\<open>UnifiPoller\<close> the pipeline reads \<^verbatim>\<open>u.Flags.ConfigFile\<close> and
  \<^verbatim>\<open>u.Config\<close>. \<^verbatim>\<open>Config\<close> has one field, the embedded pointer \<^verbatim>\<open>*Poller\<close>,
  which may be nil (\<open>None\<close>): the libraries that fill the config are free to leave
  it so. \<^verbatim>\<open>u.Flags\<close> and \<^verbatim>\<open>u.Config\<close> themselves are pointers that the pipeline
  never assigns; they are taken to be allocated when it starts.
\<close>

record UnifiPoller =
  Flags_ConfigFile :: string
  Config_Poller :: "Poller option"

text \<open>
  What \<^verbatim>\<open>parseInterface\<close> is given as \<^verbatim>\<open>interface{}\<close>: the core config
  \<^verbatim>\<open>u.Config\<close> (its \<^verbatim>\<open>*Poller\<close>), or the config of a plugin (a value of the type
  variable \<open>'c\<close>).
\<close>

datatype 'c iface = CoreConfig "Poller option" | PluginConfig 'c



text \<open>
  Errors: one of a library (a value of \<open>'e\<close>), or \<^verbatim>\<open>fmt.Errorf(prefix + "%w", err)\<close>,
  which wraps \<open>err\<close>.
\<close>

datatype 'e error = Lib 'e | Errorf string "'e error"

fun Unwrap :: "'e error \<Rightarrow> 'e error option" where
  "Unwrap (Errorf prefix err) = Some err"
| "Unwrap (Lib e) = None"

text \<open>
  How a function of the pipeline ends: it returns an error or nil, or it panics. The
  source has no \<^verbatim>\<open>recover\<close>, so a panic ends the whole call.
\<close>

datatype 'e outcome = Return "'e error option" | Panic

datatype mutex = inputSync | outputSync

text \<open>
  The calls the pipeline makes outside the package, with their arguments and whether
  they failed, and the operations on the two registry locks: the model records them in
  the order they happen.
\<close>

datatype ('c, 'e) event =
    cnfgfile_Unmarshal_ev "'c iface" string "'e option"
  | cnfg_UnmarshalENV_ev "'c iface" string "'e option"
  | os_Stat_ev string
  | Logf_ev string
  | plugin_Open_ev string "'e option"
  | Lock_ev mutex
  | Unlock_ev mutex

text \<open>
  The state the pipeline works on: the configs of the registered input and output
  plugins (\<^verbatim>\<open>i.Config\<close> for each \<^verbatim>\<open>i\<close> of the package's \<^verbatim>\<open>inputs\<close>, and so
  for \<^verbatim>\<open>outputs\<close>) in registration order, and the record of events.
\<close>

record ('c, 'e) world =
  inputs :: "'c list"
  outputs :: "'c list"
  trace :: "('c, 'e) event list"

text \<open>
  The libraries and the constants of the package that are declared in another file are
  parameters. \<^verbatim>\<open>cnfgfile.Unmarshal\<close> and \<^verbatim>\<open>cnfg.UnmarshalENV\<close> write through the
  pointer they are given and return an error or nil: each is a function for the core
  config and one for a plugin's config, giving the error and the config as it is left.
  \<^verbatim>\<open>os.Stat\<close> gives an error or nil; \<^verbatim>\<open>plugin.Open\<close> gives an error or nil and,
  since loading a module runs its initialisation, which may register plugins, the two
  registries as it leaves them.
\<close>

record ('c, 'e) env =
  cnfgfile_core :: "Poller option \<Rightarrow> string \<Rightarrow> 'e option \<times> Poller option"
  cnfgfile_plugin :: "'c \<Rightarrow> string \<Rightarrow> 'e option \<times> 'c"
  cnfgenv_core :: "Poller option \<Rightarrow> string \<Rightarrow> 'e option \<times> Poller option"
  cnfgenv_plugin :: "'c \<Rightarrow> string \<Rightarrow> 'e option \<times> 'c"
  os_Stat :: "string \<Rightarrow> 'e option"
  os_IsNotExist :: "'e option \<Rightarrow> bool"
  path_Join :: "string \<Rightarrow> string \<Rightarrow> string"
  plugin_Open :: "string \<Rightarrow> 'c list \<times> 'c list \<Rightarrow> 'e option \<times> 'c list \<times> 'c list"
  DefaultObjPath :: string




definition record_ev :: "('c, 'e) event \<Rightarrow> ('c, 'e) world \<Rightarrow> ('c, 'e) world" where
  "record_ev ev w = w\<lparr>trace := trace w @ [ev]\<rparr>"

subsection \<open>LoadPlugins\<close>

text \<open>The name a declared path is loaded under, before the file is looked for.\<close>

definition soName :: "string \<Rightarrow> string" where
  "soName p = TrimSuffix p ''.so'' @ ''.so''"

text \<open>The loop of \<^verbatim>\<open>LoadPlugins\<close> over \<^verbatim>\<open>u.Plugins\<close>.\<close>

fun loadEach :: "('c, 'e) env \<Rightarrow> string list \<Rightarrow> ('c, 'e) world \<Rightarrow> 'e error option \<times> ('c, 'e) world" where
  "loadEach E [] w = (None, w)"
| "loadEach E (p # ps) w =
     (let name = soName p in
      if name = ''.so'' then loadEach E ps w
      else
        let w1 = record_ev (os_Stat_ev name) w;
            name' = (if os_IsNotExist E (os_Stat E name)
                     then path_Join E (DefaultObjPath E) name else name);
            w2 = record_ev (Logf_ev (''Loading Dynamic Plugin: '' @ name')) w1;
            (err, ins, outs) = plugin_Open E name' (inputs w2, outputs w2);
            w3 = record_ev (plugin_Open_ev name' err) (w2\<lparr>inputs := ins, outputs := outs\<rparr>)
        in case err of
             Some e \<Rightarrow> (Some (Errorf ''opening plugin: '' (Lib e)), w3)
           | None \<Rightarrow> loadEach E ps w3)"

text \<open>
  \<^verbatim>\<open>u.Plugins\<close> is \<^verbatim>\<open>u.Config.Poller.Plugins\<close>: with a nil \<^verbatim>\<open>Poller\<close> the
  \<^verbatim>\<open>range\<close> clause panics, before anything else is done.
\<close>

definition LoadPlugins :: "('c, 'e) env \<Rightarrow> UnifiPoller \<Rightarrow> ('c, 'e) world \<Rightarrow> 'e outcome \<times> ('c, 'e) world" where
  "LoadPlugins E u w =
     (case Config_Poller u of
        None \<Rightarrow> (Panic, w)
      | Some poller \<Rightarrow>
          (let (err, w') = loadEach E (Plugins poller) w in (Return err, w')))"

subsection \<open>parseInterface, parseInputs, parseOutputs\<close>





subsection \<open>ParseConfigs\<close>


section \<open>Observations and example inputs\<close>

text \<open>The response a handler writes: its effects but for the lock operations.\<close>

fun is_response :: "'a effect \<Rightarrow> bool" where
  "is_response (handleJSON j) = True"
| "is_response handleMissing = True"
| "is_response (RLock r n) = False"
| "is_response (RUnlock r n) = False"

definition responses :: "'a effect list \<Rightarrow> 'a effect list" where
  "responses es = filter is_response es"

text \<open>
  No response body is serialized while a read lock is held: over the effects of a
  handler, with the number of read locks held so far.
\<close>

fun serialized_unlocked :: "nat \<Rightarrow> 'a effect list \<Rightarrow> bool" where
  "serialized_unlocked n [] = True"
| "serialized_unlocked n (RLock r name # es) = serialized_unlocked (Suc n) es"
| "serialized_unlocked n (RUnlock r name # es) = serialized_unlocked (n - 1) es"
| "serialized_unlocked n (handleJSON j # es) = (n = 0 \<and> serialized_unlocked n es)"
| "serialized_unlocked n (handleMissing # es) = serialized_unlocked n es"

text \<open>A server with one input and one output plugin, and methods for it.\<close>

definition srv0 :: "nat Server" where
  "srv0 =
     \<lparr>plugins =
        \<lparr>Inputs = [''unifi'' \<mapsto>
           \<lparr>Config = 1, Events = [''site'' \<mapsto> 7], Counter = [''polls'' \<mapsto> 3],
            Sites = 4, Devices = 5, Clients = 6\<rparr>],
         Outputs = [''influx'' \<mapsto>
           \<lparr>Config = 1, Events = [''site'' \<mapsto> 7], Counter = [''polls'' \<mapsto> 3]\<rparr>]\<rparr>,
      Collect_Inputs = [(''unifi'', ''github.com/unpoller/unifi'')],
      Collect_Outputs = [(''influx'', ''github.com/unpoller/influx'')]\<rparr>"

definition M0 :: "nat methods" where
  "M0 = \<lparr>Groups = (\<lambda>m k. 0), Devices_Filter = (\<lambda>d k. d), Clients_Filter = (\<lambda>d k. d)\<rparr>"

text \<open>
  The inner map that the loop of \<^verbatim>\<open>parse\<close> over \<open>vals\<close> leaves, from the inner
  map \<open>m\<close>: each entry is stored when a module matches its path, with the version of
  the first such module.
\<close>

fun entries :: "Module list \<Rightarrow> (string \<times> string) list \<Rightarrow> (string \<rightharpoonup> plugin) \<Rightarrow> (string \<rightharpoonup> plugin)" where
  "entries deps [] m = m"
| "entries deps ((k, v) # vals) m =
     entries deps vals
       (case find (\<lambda>d. Module.Path d = v) deps of
          None \<Rightarrow> m
        | Some d \<Rightarrow> m(k \<mapsto> plugin k (Module.Version d) v))"

text \<open>A build manifest that holds the module of the input plugin of \<open>srv0\<close> only.\<close>

definition bi1 :: BuildInfo where
  "bi1 = \<lparr>Deps = [\<lparr>Module.Path = ''golift.io/cnfg'', Module.Version = ''v0.2.1''\<rparr>,
                   \<lparr>Module.Path = ''github.com/unpoller/unifi'', Module.Version = ''v5.1.0''\<rparr>]\<rparr>"

text \<open>
  The error the pipeline reports for a call that failed: the three places where the
  source wraps a library's error.
\<close>

fun failed_call :: "('c, 'e) event \<Rightarrow> 'e error option" where
  "failed_call (cnfgfile_Unmarshal_ev i file (Some e)) = Some (Errorf ''cnfg unmarshal: '' (Lib e))"
| "failed_call (cnfg_UnmarshalENV_ev i prefix (Some e)) = Some (Errorf ''env unmarshal: '' (Lib e))"
| "failed_call (plugin_Open_ev name (Some e)) = Some (Errorf ''opening plugin: '' (Lib e))"
| "failed_call ev = None"

text \<open>
  The step of the pipeline an event belongs to: 1 for resolving the core config, 2 for
  loading the dynamic plugins, 3 for what happens on or under the input-registry lock, 4
  for what happens on or under the output-registry lock. A plugin's config resolved
  under no registry lock belongs to no step: 0.
\<close>

fun mutex_step :: "mutex \<Rightarrow> nat" where
  "mutex_step inputSync = 3"
| "mutex_step outputSync = 4"

fun plugin_step :: "mutex option \<Rightarrow> nat" where
  "plugin_step None = 0"
| "plugin_step (Some m) = mutex_step m"

fun step_of :: "mutex option \<Rightarrow> ('c, 'e) event \<Rightarrow> nat" where
  "step_of held (cnfgfile_Unmarshal_ev (CoreConfig p) file r) = 1"
| "step_of held (cnfg_UnmarshalENV_ev (CoreConfig p) prefix r) = 1"
| "step_of held (cnfgfile_Unmarshal_ev (PluginConfig c) file r) = plugin_step held"
| "step_of held (cnfg_UnmarshalENV_ev (PluginConfig c) prefix r) = plugin_step held"
| "step_of held (os_Stat_ev name) = 2"
| "step_of held (Logf_ev line) = 2"
| "step_of held (plugin_Open_ev name r) = 2"
| "step_of held (Lock_ev m) = mutex_step m"
| "step_of held (Unlock_ev m) = mutex_step m"

text \<open>The registry lock held after an event, from the one held before it.\<close>

fun holds :: "mutex option \<Rightarrow> ('c, 'e) event \<Rightarrow> mutex option" where
  "holds held (Lock_ev m) = Some m"
| "holds held (Unlock_ev m) = None"
| "holds held ev = held"

text \<open>The registry lock held after a list of events.\<close>

fun held_after :: "mutex option \<Rightarrow> ('c, 'e) event list \<Rightarrow> mutex option" where
  "held_after held [] = held"
| "held_after held (ev # evs) = held_after (holds held ev) evs"

fun steps :: "mutex option \<Rightarrow> ('c, 'e) event list \<Rightarrow> nat list" where
  "steps held [] = []"
| "steps held (ev # evs) = step_of held ev # steps (holds held ev) evs"



fun is_plugin_parse :: "('c, 'e) event \<Rightarrow> bool" where
  "is_plugin_parse (cnfgfile_Unmarshal_ev (PluginConfig c) file r) = True"
| "is_plugin_parse (cnfg_UnmarshalENV_ev (PluginConfig c) prefix r) = True"
| "is_plugin_parse ev = False"

fun is_load :: "('c, 'e) event \<Rightarrow> bool" where
  "is_load (os_Stat_ev name) = True"
| "is_load (Logf_ev line) = True"
| "is_load (plugin_Open_ev name r) = True"
| "is_load ev = False"

text \<open>The events of a run: what the run added to the record.\<close>

definition events_since :: "('c, 'e) world \<Rightarrow> ('c, 'e) world \<Rightarrow> ('c, 'e) event list" where
  "events_since w w' = drop (length (trace w)) (trace w')"



text \<open>
  The file a normalized name is loaded from: the name itself, or the name under the
  default directory when \<^verbatim>\<open>os.Stat\<close> says that the name does not exist. And the
  names that a run looked for, logged and opened, in the order of the calls.
\<close>

definition resolved :: "('c, 'e) env \<Rightarrow> string \<Rightarrow> string" where
  "resolved E name =
     (if os_IsNotExist E (os_Stat E name) then path_Join E (DefaultObjPath E) name else name)"

fun stat_names :: "('c, 'e) event list \<Rightarrow> string list" where
  "stat_names [] = []"
| "stat_names (os_Stat_ev name # evs) = name # stat_names evs"
| "stat_names (ev # evs) = stat_names evs"

fun log_lines :: "('c, 'e) event list \<Rightarrow> string list" where
  "log_lines [] = []"
| "log_lines (Logf_ev line # evs) = line # log_lines evs"
| "log_lines (ev # evs) = log_lines evs"

fun open_names :: "('c, 'e) event list \<Rightarrow> string list" where
  "open_names [] = []"
| "open_names (plugin_Open_ev name r # evs) = name # open_names evs"
| "open_names (ev # evs) = open_names evs"


text \<open>
  The two registries after the modules of the given names have been opened in turn,
  from the registries before.
\<close>

fun registered :: "('c, 'e) env \<Rightarrow> string list \<Rightarrow> 'c list \<times> 'c list \<Rightarrow> 'c list \<times> 'c list" where
  "registered E [] regs = regs"
| "registered E (name # names) regs = registered E names (snd (plugin_Open E name regs))"

text \<open>The declared paths that are not skipped.\<close>

definition loadable :: "string list \<Rightarrow> string list" where
  "loadable ps = filter (\<lambda>p. soName p \<noteq> ''.so'') ps"

text \<open>
  Libraries and a start state to run the pipeline on: the config file declares the
  plugins \<open>foo\<close> and \<open>.so\<close>, opening a module registers an input plugin with
  config 7, resolving a plugin config 13 fails, and opening a module named \<open>bad.so\<close>
  fails.
\<close>

definition E0 :: "(nat, string) env" where
  "E0 =
     \<lparr>cnfgfile_core = (\<lambda>p file.
         (None, Some \<lparr>Plugins = [''foo'', ''.so''], Debug = False, Quiet = False\<rparr>)),
      cnfgfile_plugin = (\<lambda>c file. (if c = 13 then Some ''bad config'' else None, c)),
      cnfgenv_core = (\<lambda>p prefix. (None, p)),
      cnfgenv_plugin = (\<lambda>c prefix. (None, Suc c)),
      os_Stat = (\<lambda>name. Some ''no such file''),
      os_IsNotExist = (\<lambda>err. err \<noteq> None),
      path_Join = (\<lambda>dir name. dir @ ''/'' @ name),
      plugin_Open = (\<lambda>name (ins, outs).
         if name = ''/usr/lib/unpoller/bad.so'' then (Some ''not a plugin'', ins, outs)
         else (None, ins @ [7], outs)),
      DefaultObjPath = ''/usr/lib/unpoller''\<rparr>"

definition u0 :: UnifiPoller where
  "u0 = \<lparr>Flags_ConfigFile = ''up.conf'',
         Config_Poller = Some \<lparr>Plugins = [], Debug = False, Quiet = False\<rparr>\<rparr>"

definition w0 :: "(nat, string) world" where
  "w0 = \<lparr>inputs = [1], outputs = [2], trace = []\<rparr>"

text \<open>A poller whose config declares three plugins, the second of which fails to open.\<close>

definition u8 :: UnifiPoller where
  "u8 = \<lparr>Flags_ConfigFile = ''up.conf'',
         Config_Poller =
           Some \<lparr>Plugins = [''foo'', ''bad.so'', ''baz''], Debug = False, Quiet = False\<rparr>\<rparr>"

definition w8 :: "(nat, string) world" where
  "w8 = \<lparr>inputs = [1, 7], outputs = [2],
         trace = [os_Stat_ev ''foo.so'',
                  Logf_ev ''Loading Dynamic Plugin: /usr/lib/unpoller/foo.so'',
                  plugin_Open_ev ''/usr/lib/unpoller/foo.so'' None,
                  os_Stat_ev ''bad.so'',
                  Logf_ev ''Loading Dynamic Plugin: /usr/lib/unpoller/bad.so'',
                  plugin_Open_ev ''/usr/lib/unpoller/bad.so'' (Some ''not a plugin'')]\<rparr>"




section \<open>The handlers\<close>

lemma outputSwitch_is_response: "is_response (outputSwitch M c sub val)"
  by (simp add: outputSwitch_def split: option.split)

lemma inputSwitch_is_response: "is_response (inputSwitch M c sub val)"
  by (simp add: inputSwitch_def split: option.split)

lemma outputSwitch_not_RLock:
  "outputSwitch M c sub val \<noteq> RLock r n" "RLock r n \<noteq> outputSwitch M c sub val"
  using outputSwitch_is_response [of M c sub val] by (cases "outputSwitch M c sub val"; simp)+

lemma inputSwitch_not_RLock:
  "inputSwitch M c sub val \<noteq> RLock r n" "RLock r n \<noteq> inputSwitch M c sub val"
  using inputSwitch_is_response [of M c sub val] by (cases "inputSwitch M c sub val"; simp)+

lemma responses_handleOutput:
  "responses (handleOutput M s vars) =
     (case getOutput (plugins s) (index [] vars ''output'') of
        None \<Rightarrow> [handleMissing]
      | Some c \<Rightarrow> [outputSwitch M c (index [] vars ''sub'') (index [] vars ''value'')])"
  by (simp add: responses_def handleOutput_def outputSwitch_is_response split: option.split)

lemma responses_handleInput:
  "responses (handleInput M s vars) =
     (case getInput (plugins s) (index [] vars ''input'') of
        None \<Rightarrow> [handleMissing]
      | Some c \<Rightarrow> [inputSwitch M c (index [] vars ''sub'') (index [] vars ''value'')])"
  by (simp add: responses_def handleInput_def inputSwitch_is_response split: option.split)

text \<open>
  C7. A handler takes a read lock only after the catalog lookup has found the plugin,
  and only the lock of the container it found: when the lookup misses, the handler's
  only effect is the missing-resource response, and whenever a handler takes a read
  lock, it is the lock of the plugin named in the request, which the catalog holds.
\<close>

theorem lookup_before_lock:
  "(getOutput (plugins s) (index [] vars ''output'') = None \<longrightarrow>
      handleOutput M s vars = [handleMissing]) \<and>
   (getInput (plugins s) (index [] vars ''input'') = None \<longrightarrow>
      handleInput M s vars = [handleMissing]) \<and>
   (\<forall>r n. RLock r n \<in> set (handleOutput M s vars) \<longrightarrow>
      r = output_role \<and> n = index [] vars ''output'' \<and> getOutput (plugins s) n \<noteq> None) \<and>
   (\<forall>r n. RLock r n \<in> set (handleInput M s vars) \<longrightarrow>
      r = input_role \<and> n = index [] vars ''input'' \<and> getInput (plugins s) n \<noteq> None)"
  by (auto simp: handleOutput_def handleInput_def outputSwitch_not_RLock inputSwitch_not_RLock
      split: option.splits)

theorem lookup_before_lock_witness:
  "getOutput (plugins srv0) (index [] [''output'' \<mapsto> ''nope''] ''output'') = None \<and>
   handleOutput M0 srv0 [''output'' \<mapsto> ''nope''] = [handleMissing] \<and>
   getInput (plugins srv0) (index [] [''input'' \<mapsto> ''nope''] ''input'') = None \<and>
   handleInput M0 srv0 [''input'' \<mapsto> ''nope''] = [handleMissing] \<and>
   RLock output_role ''influx'' \<in> set (handleOutput M0 srv0 [''output'' \<mapsto> ''influx'']) \<and>
   getOutput (plugins srv0) ''influx'' \<noteq> None"
proof -
  have a: "getOutput (plugins srv0) (index [] [''output'' \<mapsto> ''nope''] ''output'') = None"
    by (simp add: getOutput_def srv0_def index_def)
  have b: "getInput (plugins srv0) (index [] [''input'' \<mapsto> ''nope''] ''input'') = None"
    by (simp add: getInput_def srv0_def index_def)
  have c: "RLock output_role ''influx'' \<in> set (handleOutput M0 srv0 [''output'' \<mapsto> ''influx''])"
    by (simp add: handleOutput_def getOutput_def srv0_def index_def)
  from a b c
    lookup_before_lock [of srv0 "[''output'' \<mapsto> ''nope'']" M0]
    lookup_before_lock [of srv0 "[''input'' \<mapsto> ''nope'']" M0]
    lookup_before_lock [of srv0 "[''output'' \<mapsto> ''influx'']" M0]
  show ?thesis by blast
qed

text \<open>
  C5. For a registered plugin, the counters query with a non-empty key that the counter
  map does not hold answers with the one-entry map from that key to zero, through
  \<^verbatim>\<open>handleJSON\<close> and not as a missing resource; for a name that is not
  registered, the response is the missing-resource response and no counter at all.
  This holds of both handlers.
\<close>

theorem counters_absent_key:
  "(getOutput (plugins s) (index [] vars ''output'') = Some co \<and>
    index [] vars ''sub'' = ''counters'' \<and> index [] vars ''value'' = val \<and>
    val \<noteq> [] \<and> Counter co val = None \<longrightarrow>
      responses (handleOutput M s vars) = [handleJSON (JCounter [val \<mapsto> 0])]) \<and>
   (getInput (plugins s) (index [] vars ''input'') = Some ci \<and>
    index [] vars ''sub'' = ''counters'' \<and> index [] vars ''value'' = val \<and>
    val \<noteq> [] \<and> Counter ci val = None \<longrightarrow>
      responses (handleInput M s vars) = [handleJSON (JCounter [val \<mapsto> 0])]) \<and>
   (getOutput (plugins s) (index [] vars ''output'') = None \<longrightarrow>
      responses (handleOutput M s vars) = [handleMissing]) \<and>
   (getInput (plugins s) (index [] vars ''input'') = None \<longrightarrow>
      responses (handleInput M s vars) = [handleMissing])"
  by (simp add: responses_handleOutput responses_handleInput outputSwitch_def inputSwitch_def
      index_def)

theorem counters_absent_key_witness:
  "responses (handleOutput M0 srv0
      [''output'' \<mapsto> ''influx'', ''sub'' \<mapsto> ''counters'', ''value'' \<mapsto> ''errors''])
     = [handleJSON (JCounter [''errors'' \<mapsto> 0])] \<and>
   responses (handleInput M0 srv0
      [''input'' \<mapsto> ''unifi'', ''sub'' \<mapsto> ''counters'', ''value'' \<mapsto> ''errors''])
     = [handleJSON (JCounter [''errors'' \<mapsto> 0])] \<and>
   responses (handleOutput M0 srv0
      [''output'' \<mapsto> ''loki'', ''sub'' \<mapsto> ''counters'', ''value'' \<mapsto> ''errors''])
     = [handleMissing] \<and>
   responses (handleInput M0 srv0
      [''input'' \<mapsto> ''loki'', ''sub'' \<mapsto> ''counters'', ''value'' \<mapsto> ''errors''])
     = [handleMissing]"
proof -
  let ?vo = "\<lambda>n. [''output'' \<mapsto> n, ''sub'' \<mapsto> ''counters'', ''value'' \<mapsto> ''errors'']"
  let ?vi = "\<lambda>n. [''input'' \<mapsto> n, ''sub'' \<mapsto> ''counters'', ''value'' \<mapsto> ''errors'']"
  let ?co = "\<lparr>Config = 1::nat, Events = [''site'' \<mapsto> 7], Counter = [''polls'' \<mapsto> 3]\<rparr>"
  let ?ci = "\<lparr>Config = 1::nat, Events = [''site'' \<mapsto> 7], Counter = [''polls'' \<mapsto> 3],
             Sites = 4, Devices = 5, Clients = 6\<rparr>"
  have o1: "getOutput (plugins srv0) (index [] (?vo ''influx'') ''output'') = Some ?co"
    by (simp add: getOutput_def srv0_def index_def)
  have i1: "getInput (plugins srv0) (index [] (?vi ''unifi'') ''input'') = Some ?ci"
    by (simp add: getInput_def srv0_def index_def)
  have o2: "getOutput (plugins srv0) (index [] (?vo ''loki'') ''output'') = None"
    by (simp add: getOutput_def srv0_def index_def)
  have i2: "getInput (plugins srv0) (index [] (?vi ''loki'') ''input'') = None"
    by (simp add: getInput_def srv0_def index_def)
  have v: "index [] (?vo n) ''sub'' = ''counters''" "index [] (?vo n) ''value'' = ''errors''"
    "index [] (?vi n) ''sub'' = ''counters''" "index [] (?vi n) ''value'' = ''errors''" for n
    by (simp_all add: index_def)
  have k: "Counter ?co ''errors'' = None" "Counter ?ci ''errors'' = None" "''errors'' \<noteq> []"
    by simp_all
  from counters_absent_key [where s = srv0 and vars = "?vo ''influx''" and co = ?co and val = "''errors''" and M = M0] o1 v k
  have A: "responses (handleOutput M0 srv0 (?vo ''influx'')) = [handleJSON (JCounter [''errors'' \<mapsto> 0])]"
    by blast
  from counters_absent_key [where s = srv0 and vars = "?vi ''unifi''" and ci = ?ci and val = "''errors''" and M = M0] i1 v k
  have B: "responses (handleInput M0 srv0 (?vi ''unifi'')) = [handleJSON (JCounter [''errors'' \<mapsto> 0])]"
    by blast
  from counters_absent_key [where s = srv0 and vars = "?vo ''loki''" and M = M0] o2
  have C: "responses (handleOutput M0 srv0 (?vo ''loki'')) = [handleMissing]"
    by blast
  from counters_absent_key [where s = srv0 and vars = "?vi ''loki''" and M = M0] i2
  have D: "responses (handleInput M0 srv0 (?vi ''loki'')) = [handleMissing]"
    by blast
  from A B C D show ?thesis by simp
qed

text \<open>
  C6. For a registered plugin, the events query answers an empty key with the whole
  events mapping, a non-empty key that the mapping holds with that key's entry, and a
  non-empty key that the mapping does not hold with the missing-resource response. This
  holds of both handlers.
\<close>

theorem events_by_key:
  "(getOutput (plugins s) (index [] vars ''output'') = Some co \<and>
    index [] vars ''sub'' = ''events'' \<longrightarrow>
      responses (handleOutput M s vars) =
        (if index [] vars ''value'' = [] then [handleJSON (JEvents (Events co))]
         else case Events co (index [] vars ''value'') of
                Some events \<Rightarrow> [handleJSON (JEventGroup events)]
              | None \<Rightarrow> [handleMissing])) \<and>
   (getInput (plugins s) (index [] vars ''input'') = Some ci \<and>
    index [] vars ''sub'' = ''events'' \<longrightarrow>
      responses (handleInput M s vars) =
        (if index [] vars ''value'' = [] then [handleJSON (JEvents (Events ci))]
         else case Events ci (index [] vars ''value'') of
                Some events \<Rightarrow> [handleJSON (JEventGroup events)]
              | None \<Rightarrow> [handleMissing]))"
  by (simp add: responses_handleOutput responses_handleInput outputSwitch_def inputSwitch_def
      split: option.split)

theorem events_by_key_witness:
  "responses (handleOutput M0 srv0 [''output'' \<mapsto> ''influx'', ''sub'' \<mapsto> ''events''])
     = [handleJSON (JEvents [''site'' \<mapsto> 7])] \<and>
   responses (handleOutput M0 srv0
      [''output'' \<mapsto> ''influx'', ''sub'' \<mapsto> ''events'', ''value'' \<mapsto> ''site''])
     = [handleJSON (JEventGroup 7)] \<and>
   responses (handleInput M0 srv0
      [''input'' \<mapsto> ''unifi'', ''sub'' \<mapsto> ''events'', ''value'' \<mapsto> ''alarm''])
     = [handleMissing]"
proof -
  let ?v1 = "[''output'' \<mapsto> ''influx'', ''sub'' \<mapsto> ''events'']"
  let ?v2 = "[''output'' \<mapsto> ''influx'', ''sub'' \<mapsto> ''events'', ''value'' \<mapsto> ''site'']"
  let ?v3 = "[''input'' \<mapsto> ''unifi'', ''sub'' \<mapsto> ''events'', ''value'' \<mapsto> ''alarm'']"
  let ?co = "\<lparr>Config = 1::nat, Events = [''site'' \<mapsto> 7], Counter = [''polls'' \<mapsto> 3]\<rparr>"
  let ?ci = "\<lparr>Config = 1::nat, Events = [''site'' \<mapsto> 7], Counter = [''polls'' \<mapsto> 3],
             Sites = 4, Devices = 5, Clients = 6\<rparr>"
  have h1: "getOutput (plugins srv0) (index [] ?v1 ''output'') = Some ?co \<and>
            index [] ?v1 ''sub'' = ''events''"
    by (simp add: getOutput_def srv0_def index_def)
  have h2: "getOutput (plugins srv0) (index [] ?v2 ''output'') = Some ?co \<and>
            index [] ?v2 ''sub'' = ''events''"
    by (simp add: getOutput_def srv0_def index_def)
  have h3: "getInput (plugins srv0) (index [] ?v3 ''input'') = Some ?ci \<and>
            index [] ?v3 ''sub'' = ''events''"
    by (simp add: getInput_def srv0_def index_def)
  from events_by_key [where s = srv0 and vars = ?v1 and co = ?co and M = M0] h1
  have A: "responses (handleOutput M0 srv0 ?v1) = [handleJSON (JEvents [''site'' \<mapsto> 7])]"
    by (simp add: index_def)
  from events_by_key [where s = srv0 and vars = ?v2 and co = ?co and M = M0] h2
  have B: "responses (handleOutput M0 srv0 ?v2) = [handleJSON (JEventGroup 7)]"
    by (simp add: index_def)
  from events_by_key [where s = srv0 and vars = ?v3 and ci = ?ci and M = M0] h3
  have C: "responses (handleInput M0 srv0 ?v3) = [handleMissing]"
    by (simp add: index_def)
  from A B C show ?thesis by simp
qed

text \<open>
  C9. On a container with the same config, events and counters, and with the same key,
  the \<^verbatim>\<open>switch\<close> of \<^verbatim>\<open>handleInput\<close> and that of \<^verbatim>\<open>handleOutput\<close> write the
  same response on every sub-route but the three that only inputs have, so on the four
  common ones (config, eventgroups, events, counters); and so do the two handlers on
  requests that name such containers. The counters branches, which test the key the
  opposite way round, are among them.
\<close>

theorem handlers_agree:
  "(Config ci = Config co \<and> Events ci = Events co \<and> Counter ci = Counter co \<and>
    sub \<in> {''config'', ''eventgroups'', ''events'', ''counters''} \<longrightarrow>
      inputSwitch M ci sub val = outputSwitch M co sub val) \<and>
   (Config ci = Config co \<and> Events ci = Events co \<and> Counter ci = Counter co \<and>
    sub \<notin> {''sites'', ''devices'', ''clients''} \<longrightarrow>
      inputSwitch M ci sub val = outputSwitch M co sub val) \<and>
   (getInput (plugins s) (index [] vin ''input'') = Some ci \<and>
    getOutput (plugins s) (index [] vout ''output'') = Some co \<and>
    Config ci = Config co \<and> Events ci = Events co \<and> Counter ci = Counter co \<and>
    index [] vin ''sub'' = index [] vout ''sub'' \<and>
    index [] vin ''value'' = index [] vout ''value'' \<and>
    index [] vin ''sub'' \<in> {''config'', ''eventgroups'', ''events'', ''counters''} \<longrightarrow>
      responses (handleInput M s vin) = responses (handleOutput M s vout))"
proof -
  have sw: "inputSwitch M ci sub' val' = outputSwitch M co sub' val'"
    if "Config ci = Config co" "Events ci = Events co" "Counter ci = Counter co"
      "sub' \<notin> {''sites'', ''devices'', ''clients''}" for sub' val'
    using that by (simp add: inputSwitch_def outputSwitch_def)
  have four: "sub' \<notin> {''sites'', ''devices'', ''clients''}"
    if "sub' \<in> {''config'', ''eventgroups'', ''events'', ''counters''}" for sub' :: string
    using that by auto
  have hs: "responses (handleInput M s vin) = responses (handleOutput M s vout)"
    if "getInput (plugins s) (index [] vin ''input'') = Some ci"
      "getOutput (plugins s) (index [] vout ''output'') = Some co"
      "Config ci = Config co" "Events ci = Events co" "Counter ci = Counter co"
      "index [] vin ''sub'' = index [] vout ''sub''"
      "index [] vin ''value'' = index [] vout ''value''"
      "index [] vin ''sub'' \<in> {''config'', ''eventgroups'', ''events'', ''counters''}"
    using that sw [OF that(3-5) four [OF that(8)], of "index [] vout ''value''"]
    by (simp add: responses_handleInput responses_handleOutput)
  show ?thesis
    using sw four hs by blast
qed

theorem handlers_agree_witness:
  "inputSwitch M0
     \<lparr>Config = 1, Events = [''site'' \<mapsto> 7], Counter = [''polls'' \<mapsto> 3],
      Sites = 4, Devices = 5, Clients = 6\<rparr> ''counters'' ''polls''
   = outputSwitch M0
     \<lparr>Config = 1, Events = [''site'' \<mapsto> 7], Counter = [''polls'' \<mapsto> 3]\<rparr> ''counters'' ''polls'' \<and>
   responses (handleInput M0 srv0
      [''input'' \<mapsto> ''unifi'', ''sub'' \<mapsto> ''counters'', ''value'' \<mapsto> ''polls''])
   = responses (handleOutput M0 srv0
      [''output'' \<mapsto> ''influx'', ''sub'' \<mapsto> ''counters'', ''value'' \<mapsto> ''polls''])"
proof -
  let ?vi = "[''input'' \<mapsto> ''unifi'', ''sub'' \<mapsto> ''counters'', ''value'' \<mapsto> ''polls'']"
  let ?vo = "[''output'' \<mapsto> ''influx'', ''sub'' \<mapsto> ''counters'', ''value'' \<mapsto> ''polls'']"
  let ?co = "\<lparr>Config = 1::nat, Events = [''site'' \<mapsto> 7], Counter = [''polls'' \<mapsto> 3]\<rparr>"
  let ?ci = "\<lparr>Config = 1::nat, Events = [''site'' \<mapsto> 7], Counter = [''polls'' \<mapsto> 3],
             Sites = 4, Devices = 5, Clients = 6\<rparr>"
  have f: "Config ?ci = Config ?co \<and> Events ?ci = Events ?co \<and> Counter ?ci = Counter ?co"
    by simp
  have l: "getInput (plugins srv0) (index [] ?vi ''input'') = Some ?ci \<and>
           getOutput (plugins srv0) (index [] ?vo ''output'') = Some ?co"
    by (simp add: getInput_def getOutput_def srv0_def index_def)
  have v: "index [] ?vi ''sub'' = index [] ?vo ''sub'' \<and>
           index [] ?vi ''value'' = index [] ?vo ''value'' \<and>
           index [] ?vi ''sub'' \<in> {''config'', ''eventgroups'', ''events'', ''counters''}"
    by (simp add: index_def)
  have m: "''counters'' \<in> {''config'', ''eventgroups'', ''events'', ''counters''}"
    by simp
  from handlers_agree [where ci = ?ci and co = ?co and sub = "''counters''" and val = "''polls''"
      and M = M0 and s = srv0 and vin = ?vi and vout = ?vo] f l v m
  show ?thesis by blast
qed

text \<open>
  C3, as the claim states it, fails: \<^verbatim>\<open>defer c.RUnlock()\<close> releases the read lock
  when the handler returns, so \<^verbatim>\<open>handleJSON\<close> runs with the lock held. On the
  request for the config of the registered output \<open>influx\<close> the response is
  serialized between taking the lock and releasing it.
\<close>

theorem serialized_under_lock_counterexample:
  "handleOutput M0 srv0 [''output'' \<mapsto> ''influx''] =
     [RLock output_role ''influx'', handleJSON (JConfig 1), RUnlock output_role ''influx''] \<and>
   \<not> serialized_unlocked 0 (handleOutput M0 srv0 [''output'' \<mapsto> ''influx''])"
  by (simp add: handleOutput_def getOutput_def srv0_def index_def outputSwitch_def)

text \<open>
  C3, amended. For every plugin-scoped read handler and registered plugin, the read lock
  of the plugin's container is taken first, the one response is written while it is
  held, and the lock is released last, on every path through the handler.
\<close>

theorem response_under_lock:
  "(getOutput (plugins s) (index [] vars ''output'') = Some co \<longrightarrow>
      (\<exists>e. is_response e \<and>
         handleOutput M s vars =
           [RLock output_role (index [] vars ''output''), e,
            RUnlock output_role (index [] vars ''output'')])) \<and>
   (getInput (plugins s) (index [] vars ''input'') = Some ci \<longrightarrow>
      (\<exists>e. is_response e \<and>
         handleInput M s vars =
           [RLock input_role (index [] vars ''input''), e,
            RUnlock input_role (index [] vars ''input'')]))"
  by (simp add: handleOutput_def handleInput_def outputSwitch_is_response
      inputSwitch_is_response)

theorem response_under_lock_witness:
  "getInput (plugins srv0) (index [] [''input'' \<mapsto> ''unifi'', ''sub'' \<mapsto> ''sites''] ''input'')
     \<noteq> None \<and>
   (\<exists>e. is_response e \<and>
      handleInput M0 srv0 [''input'' \<mapsto> ''unifi'', ''sub'' \<mapsto> ''sites''] =
        [RLock input_role ''unifi'', e, RUnlock input_role ''unifi''])"
proof -
  let ?v = "[''input'' \<mapsto> ''unifi'', ''sub'' \<mapsto> ''sites'']"
  let ?ci = "\<lparr>Config = 1::nat, Events = [''site'' \<mapsto> 7], Counter = [''polls'' \<mapsto> 3],
             Sites = 4, Devices = 5, Clients = 6\<rparr>"
  have l: "getInput (plugins srv0) (index [] ?v ''input'') = Some ?ci"
    by (simp add: getInput_def srv0_def index_def)
  have n: "index [] ?v ''input'' = ''unifi''"
    by (simp add: index_def)
  from response_under_lock [where s = srv0 and vars = ?v and ci = ?ci and M = M0] l
  have "\<exists>e. is_response e \<and>
      handleInput M0 srv0 ?v =
        [RLock input_role (index [] ?v ''input''), e, RUnlock input_role (index [] ?v ''input'')]"
    by blast
  with l n show ?thesis by simp
qed

section \<open>The plugin descriptors\<close>

lemma scanDeps_entry:
  "i name = Some m \<Longrightarrow>
   scanDeps deps name k v i =
     Some (i(name \<mapsto> (case find (\<lambda>d. Module.Path d = v) deps of
                          None \<Rightarrow> m
                        | Some d \<Rightarrow> m(k \<mapsto> plugin k (Module.Version d) v))))"
  by (induction deps) (simp_all add: map_upd_triv)

lemma parse_entries:
  "i name = Some m \<Longrightarrow> parse deps name vals i = Some (i(name \<mapsto> entries deps vals m))"
proof (induction vals arbitrary: i m)
  case Nil
  then show ?case by (simp add: map_upd_triv)
next
  case (Cons kv vals)
  obtain k v where kv: "kv = (k, v)" by (cases kv)
  let ?m = "case find (\<lambda>d. Module.Path d = v) deps of
              None \<Rightarrow> m
            | Some d \<Rightarrow> m(k \<mapsto> plugin k (Module.Version d) v)"
  have rec: "parse deps name vals (i(name \<mapsto> ?m)) =
          Some ((i(name \<mapsto> ?m))(name \<mapsto> entries deps vals ?m))"
    by (rule Cons.IH [of "i(name \<mapsto> ?m)" ?m]) simp
  have scan: "scanDeps deps name k v i = Some (i(name \<mapsto> ?m))"
    using Cons.prems by (rule scanDeps_entry [of i name m deps k v])
  have "parse deps name (kv # vals) i = parse deps name vals (i(name \<mapsto> ?m))"
    by (simp only: kv parse.simps scan option.case)
  also have "\<dots> = Some (i(name \<mapsto> entries deps vals ?m))"
    by (simp only: rec fun_upd_upd)
  also have "entries deps vals ?m = entries deps (kv # vals) m"
    by (simp only: kv entries.simps)
  finally show ?case .
qed

lemma entries_other: "k \<notin> fst ` set vals \<Longrightarrow> entries deps vals m k = m k"
  by (induction vals arbitrary: m) (auto split: option.splits)

lemma entries_lookup:
  "distinct (map fst vals) \<Longrightarrow> (k, v) \<in> set vals \<Longrightarrow>
   entries deps vals m k =
     (case find (\<lambda>d. Module.Path d = v) deps of
        None \<Rightarrow> m k
      | Some d \<Rightarrow> Some (plugin k (Module.Version d) v))"
proof (induction vals arbitrary: m)
  case Nil
  then show ?case by simp
next
  case (Cons kv vals)
  obtain k' v' where kv: "kv = (k', v')" by (cases kv)
  show ?case
  proof (cases "(k, v) = (k', v')")
    case True
    with Cons.prems kv have "k \<notin> fst ` set vals" by auto
    with True kv show ?thesis
      by (simp add: entries_other split: option.splits)
  next
    case False
    with Cons.prems kv have in_tl: "(k, v) \<in> set vals" and "k \<noteq> k'"
      by (auto simp: rev_image_eqI)
    with Cons.IH [OF _ in_tl] Cons.prems kv show ?thesis
      by (simp split: option.splits)
  qed
qed

lemma getPlugins_entries:
  "getPlugins bi0 ok s =
     Some [''inputs'' \<mapsto>
             entries (case (ok, bi0) of (True, Some b) \<Rightarrow> Deps b | _ \<Rightarrow> [])
               (Collect_Inputs s) Map.empty,
           ''outputs'' \<mapsto>
             entries (case (ok, bi0) of (True, Some b) \<Rightarrow> Deps b | _ \<Rightarrow> [])
               (Collect_Outputs s) Map.empty]"
proof -
  let ?D = "case (ok, bi0) of (True, Some b) \<Rightarrow> Deps b | _ \<Rightarrow> []"
  let ?bi = "case (ok, bi0) of (True, Some b) \<Rightarrow> b | _ \<Rightarrow> \<lparr>Deps = []\<rparr>"
  let ?i = "[''inputs'' \<mapsto> Map.empty, ''outputs'' \<mapsto> (Map.empty :: string \<rightharpoonup> plugin)]"
  let ?i1 = "?i(''inputs'' \<mapsto> entries ?D (Collect_Inputs s) Map.empty)"
  have D: "Deps ?bi = ?D"
    by (simp split: bool.splits option.splits)
  have 1: "parse ?D ''inputs'' (Collect_Inputs s) ?i = Some ?i1"
    by (rule parse_entries [of ?i "''inputs''" Map.empty]) simp
  have 2: "parse ?D ''outputs'' (Collect_Outputs s) ?i1 =
             Some (?i1(''outputs'' \<mapsto> entries ?D (Collect_Outputs s) Map.empty))"
    by (rule parse_entries [of ?i1 "''outputs''" Map.empty]) simp
  have 3: "?i1(''outputs'' \<mapsto> entries ?D (Collect_Outputs s) Map.empty) =
           [''inputs'' \<mapsto> entries ?D (Collect_Inputs s) Map.empty,
            ''outputs'' \<mapsto> entries ?D (Collect_Outputs s) Map.empty]"
    by (rule ext) simp
  have "getPlugins bi0 ok s =
          (case parse ?D ''inputs'' (Collect_Inputs s) ?i of
             None \<Rightarrow> None
           | Some i1 \<Rightarrow> parse ?D ''outputs'' (Collect_Outputs s) i1)"
    unfolding getPlugins_def Let_def D ..
  with 1 2 3 show ?thesis by simp
qed

text \<open>
  C2, as the claim states it, fails: \<^verbatim>\<open>parse\<close> stores an entry only inside the test
  that a module's path is the plugin's. With a manifest that holds the module of the
  input plugin \<open>unifi\<close> but none for the registered output plugin \<open>influx\<close>, the
  outputs mapping comes back empty: \<open>influx\<close> is not in it.
\<close>

theorem unmatched_plugin_counterexample:
  "(''influx'', ''github.com/unpoller/influx'') \<in> set (Collect_Outputs srv0) \<and>
   ''github.com/unpoller/influx'' \<notin> Module.Path ` set (Deps bi1) \<and>
   getPlugins (Some bi1) True srv0 =
     Some [''inputs'' \<mapsto>
             [''unifi'' \<mapsto> plugin ''unifi'' ''v5.1.0'' ''github.com/unpoller/unifi''],
           ''outputs'' \<mapsto> Map.empty]"
  by (simp add: getPlugins_entries srv0_def bi1_def)

text \<open>
  C2, amended. Listing the plugin descriptors scans the build manifest for a module
  whose path is the plugin's declared source path: a registered name with such a module
  gets a descriptor with its name, its path and the version of the first such module; a
  registered name with no such module is left out of the returned mapping, which is not
  an error; and no other name is in the mapping. The registered names with their paths
  come as the entries of a Go map, so no name comes twice.
\<close>

theorem getPlugins_descriptors:
  "distinct (map fst (Collect_Inputs s)) \<and> distinct (map fst (Collect_Outputs s)) \<longrightarrow>
   (\<exists>mi mo.
      getPlugins (Some bi) True s = Some [''inputs'' \<mapsto> mi, ''outputs'' \<mapsto> mo] \<and>
      (\<forall>k v. (k, v) \<in> set (Collect_Inputs s) \<longrightarrow>
         mi k = map_option (\<lambda>d. plugin k (Module.Version d) v)
                  (find (\<lambda>d. Module.Path d = v) (Deps bi))) \<and>
      (\<forall>k. k \<notin> fst ` set (Collect_Inputs s) \<longrightarrow> mi k = None) \<and>
      (\<forall>k v. (k, v) \<in> set (Collect_Outputs s) \<longrightarrow>
         mo k = map_option (\<lambda>d. plugin k (Module.Version d) v)
                  (find (\<lambda>d. Module.Path d = v) (Deps bi))) \<and>
      (\<forall>k. k \<notin> fst ` set (Collect_Outputs s) \<longrightarrow> mo k = None))"
proof (intro impI, elim conjE)
  assume di: "distinct (map fst (Collect_Inputs s))"
    and do: "distinct (map fst (Collect_Outputs s))"
  let ?mi = "entries (Deps bi) (Collect_Inputs s) Map.empty"
  let ?mo = "entries (Deps bi) (Collect_Outputs s) Map.empty"
  have g: "getPlugins (Some bi) True s = Some [''inputs'' \<mapsto> ?mi, ''outputs'' \<mapsto> ?mo]"
    using getPlugins_entries [of "Some bi" True s] by simp
  have i1: "?mi k = map_option (\<lambda>d. plugin k (Module.Version d) v)
                      (find (\<lambda>d. Module.Path d = v) (Deps bi))"
    if "(k, v) \<in> set (Collect_Inputs s)" for k v
    using entries_lookup [OF di that, of "Deps bi" Map.empty] by (simp split: option.splits)
  have o1: "?mo k = map_option (\<lambda>d. plugin k (Module.Version d) v)
                      (find (\<lambda>d. Module.Path d = v) (Deps bi))"
    if "(k, v) \<in> set (Collect_Outputs s)" for k v
    using entries_lookup [OF do that, of "Deps bi" Map.empty] by (simp split: option.splits)
  have i2: "?mi k = None" if "k \<notin> fst ` set (Collect_Inputs s)" for k
    using entries_other [OF that] by simp
  have o2: "?mo k = None" if "k \<notin> fst ` set (Collect_Outputs s)" for k
    using entries_other [OF that] by simp
  from g i1 i2 o1 o2 show "\<exists>mi mo.
      getPlugins (Some bi) True s = Some [''inputs'' \<mapsto> mi, ''outputs'' \<mapsto> mo] \<and>
      (\<forall>k v. (k, v) \<in> set (Collect_Inputs s) \<longrightarrow>
         mi k = map_option (\<lambda>d. plugin k (Module.Version d) v)
                  (find (\<lambda>d. Module.Path d = v) (Deps bi))) \<and>
      (\<forall>k. k \<notin> fst ` set (Collect_Inputs s) \<longrightarrow> mi k = None) \<and>
      (\<forall>k v. (k, v) \<in> set (Collect_Outputs s) \<longrightarrow>
         mo k = map_option (\<lambda>d. plugin k (Module.Version d) v)
                  (find (\<lambda>d. Module.Path d = v) (Deps bi))) \<and>
      (\<forall>k. k \<notin> fst ` set (Collect_Outputs s) \<longrightarrow> mo k = None)"
    by blast
qed

theorem getPlugins_descriptors_witness:
  "distinct (map fst (Collect_Inputs srv0)) \<and> distinct (map fst (Collect_Outputs srv0)) \<and>
   (\<exists>mi mo.
      getPlugins (Some bi1) True srv0 = Some [''inputs'' \<mapsto> mi, ''outputs'' \<mapsto> mo] \<and>
      mi ''unifi'' = Some (plugin ''unifi'' ''v5.1.0'' ''github.com/unpoller/unifi'') \<and>
      mo ''influx'' = None \<and> mi ''influx'' = None)"
proof -
  have d: "distinct (map fst (Collect_Inputs srv0)) \<and> distinct (map fst (Collect_Outputs srv0))"
    by (simp add: srv0_def)
  have m: "(''unifi'', ''github.com/unpoller/unifi'') \<in> set (Collect_Inputs srv0)"
    "(''influx'', ''github.com/unpoller/influx'') \<in> set (Collect_Outputs srv0)"
    "''influx'' \<notin> fst ` set (Collect_Inputs srv0)"
    by (simp_all add: srv0_def)
  have f: "find (\<lambda>d. Module.Path d = ''github.com/unpoller/unifi'') (Deps bi1) =
             Some \<lparr>Module.Path = ''github.com/unpoller/unifi'', Module.Version = ''v5.1.0''\<rparr>"
    "find (\<lambda>d. Module.Path d = ''github.com/unpoller/influx'') (Deps bi1) = None"
    by (simp_all add: bi1_def)
  from getPlugins_descriptors [of srv0 bi1] d
  obtain mi mo where
    g: "getPlugins (Some bi1) True srv0 = Some [''inputs'' \<mapsto> mi, ''outputs'' \<mapsto> mo]"
    and i1: "\<And>k v. (k, v) \<in> set (Collect_Inputs srv0) \<Longrightarrow>
         mi k = map_option (\<lambda>d. plugin k (Module.Version d) v)
                  (find (\<lambda>d. Module.Path d = v) (Deps bi1))"
    and i2: "\<And>k. k \<notin> fst ` set (Collect_Inputs srv0) \<Longrightarrow> mi k = None"
    and o1: "\<And>k v. (k, v) \<in> set (Collect_Outputs srv0) \<Longrightarrow>
         mo k = map_option (\<lambda>d. plugin k (Module.Version d) v)
                  (find (\<lambda>d. Module.Path d = v) (Deps bi1))"
    by blast
  from i1 [OF m(1)] f(1) have a: "mi ''unifi'' = Some (plugin ''unifi'' ''v5.1.0'' ''github.com/unpoller/unifi'')"
    by simp
  from o1 [OF m(2)] f(2) have b: "mo ''influx'' = None"
    by simp
  from i2 [OF m(3)] have c: "mi ''influx'' = None" .
  from d g a b c show ?thesis by blast
qed

text \<open>
  C10. \<^verbatim>\<open>getPlugins\<close> always returns, without a panic, a mapping with exactly the
  two keys \<open>inputs\<close> and \<open>outputs\<close>, each bound to a map; when the build
  information is not available (the flag is false or the pointer nil), an empty
  dependency list stands in for it, and both maps are empty.
\<close>

theorem getPlugins_total:
  "(\<exists>mi mo. getPlugins bi0 ok s = Some [''inputs'' \<mapsto> mi, ''outputs'' \<mapsto> mo]) \<and>
   (\<exists>i. getPlugins bi0 ok s = Some i \<and> dom i = {''inputs'', ''outputs''}) \<and>
   (\<not> ok \<or> bi0 = None \<longrightarrow>
      getPlugins bi0 ok s = Some [''inputs'' \<mapsto> Map.empty, ''outputs'' \<mapsto> Map.empty])"
proof -
  have e: "entries [] vals m = m" for vals and m :: "string \<rightharpoonup> plugin"
    by (induction vals) auto
  have u: "getPlugins bi0 ok s = Some [''inputs'' \<mapsto> Map.empty, ''outputs'' \<mapsto> Map.empty]"
    if "\<not> ok \<or> bi0 = None"
    using that getPlugins_entries [of bi0 ok s] by (auto simp: e split: bool.splits option.splits)
  have d: "dom [''inputs'' \<mapsto> mi, ''outputs'' \<mapsto> mo] = {''inputs'', ''outputs''}"
    for mi mo :: "string \<rightharpoonup> plugin"
    by auto
  show ?thesis
    using u d getPlugins_entries [of bi0 ok s] by blast
qed

theorem getPlugins_total_witness:
  "getPlugins None False srv0 = Some [''inputs'' \<mapsto> Map.empty, ''outputs'' \<mapsto> Map.empty] \<and>
   getPlugins (Some bi1) False srv0 = Some [''inputs'' \<mapsto> Map.empty, ''outputs'' \<mapsto> Map.empty] \<and>
   (\<exists>i. getPlugins (Some bi1) True srv0 = Some i \<and> dom i = {''inputs'', ''outputs''})"
  using getPlugins_total [of None False srv0] getPlugins_total [of "Some bi1" False srv0]
    getPlugins_total [of "Some bi1" True srv0]
  by blast

section \<open>Loading the dynamic plugins\<close>

lemma TrimSuffix_append:
  "TrimSuffix p suffix @ suffix = (if HasSuffix p suffix then p else p @ suffix)"
proof (cases "HasSuffix p suffix")
  case True
  then have "drop (length p - length suffix) p = suffix"
    by (simp add: HasSuffix_def)
  then have "take (length p - length suffix) p @ suffix = p"
    by (metis append_take_drop_id)
  with True show ?thesis by (simp add: TrimSuffix_def)
next
  case False
  then show ?thesis by (simp add: TrimSuffix_def)
qed

lemma soName_eq: "soName p = (if HasSuffix p ''.so'' then p else p @ ''.so'')"
  by (simp add: soName_def TrimSuffix_append)

lemma HasSuffix_append: "HasSuffix (p @ suffix) suffix"
  by (simp add: HasSuffix_def)

lemma soName_skipped: "soName p = ''.so'' \<longleftrightarrow> p = [] \<or> p = ''.so''"
proof
  assume a: "soName p = ''.so''"
  show "p = [] \<or> p = ''.so''"
  proof (cases "HasSuffix p ''.so''")
    case True
    with a show ?thesis by (simp add: soName_eq)
  next
    case False
    with a have "p @ ''.so'' = [] @ ''.so''" by (simp add: soName_eq)
    then have "p = []" by (simp only: append_same_eq)
    then show ?thesis ..
  qed
next
  assume "p = [] \<or> p = ''.so''"
  then show "soName p = ''.so''"
    by (auto simp: soName_def TrimSuffix_def HasSuffix_def)
qed



lemma loadEach_step:
  assumes "soName p \<noteq> ''.so''"
  obtains err w3 where
    "trace w3 = trace w @ [os_Stat_ev (soName p),
       Logf_ev (''Loading Dynamic Plugin: '' @ resolved E (soName p)),
       plugin_Open_ev (resolved E (soName p)) err]"
    "loadEach E (p # ps) w =
       (case err of
          Some e \<Rightarrow> (Some (Errorf ''opening plugin: '' (Lib e)), w3)
        | None \<Rightarrow> loadEach E ps w3)"
    "(inputs w3, outputs w3) = snd (plugin_Open E (resolved E (soName p)) (inputs w, outputs w))"
proof -
  define w2 where
    "w2 = record_ev (Logf_ev (''Loading Dynamic Plugin: '' @ resolved E (soName p)))
            (record_ev (os_Stat_ev (soName p)) w)"
  obtain err ins outs where
    po: "plugin_Open E (resolved E (soName p)) (inputs w2, outputs w2) = (err, ins, outs)"
    by (cases "plugin_Open E (resolved E (soName p)) (inputs w2, outputs w2)")
  define w3 where
    "w3 = record_ev (plugin_Open_ev (resolved E (soName p)) err) (w2\<lparr>inputs := ins, outputs := outs\<rparr>)"
  have "trace w3 = trace w @ [os_Stat_ev (soName p),
       Logf_ev (''Loading Dynamic Plugin: '' @ resolved E (soName p)),
       plugin_Open_ev (resolved E (soName p)) err]"
    by (simp add: w3_def w2_def record_ev_def)
  moreover have "loadEach E (p # ps) w =
       (case err of
          Some e \<Rightarrow> (Some (Errorf ''opening plugin: '' (Lib e)), w3)
        | None \<Rightarrow> loadEach E ps w3)"
    by (simp only: loadEach.simps Let_def assms if_False resolved_def [symmetric]
        w2_def [symmetric] po prod.case w3_def [symmetric])
  moreover have "(inputs w3, outputs w3) =
      snd (plugin_Open E (resolved E (soName p)) (inputs w, outputs w))"
    using po by (simp add: w3_def w2_def record_ev_def)
  ultimately show thesis by (rule that)
qed

lemma loadEach_events:
  "loadEach E ps w = (r, w') \<Longrightarrow>
   \<exists>evs. trace w' = trace w @ evs \<and> list_all is_load evs \<and>
     (case r of
        None \<Rightarrow> (\<forall>ev\<in>set evs. failed_call ev = None)
      | Some err \<Rightarrow>
          (\<exists>pre name e. evs = pre @ [plugin_Open_ev name (Some e)] \<and>
             err = Errorf ''opening plugin: '' (Lib e) \<and>
             (\<forall>ev\<in>set pre. failed_call ev = None)))"
proof (induction ps arbitrary: w)
  case Nil
  then show ?case by auto
next
  case (Cons p ps)
  show ?case
  proof (cases "soName p = ''.so''")
    case True
    with Cons.prems have "loadEach E ps w = (r, w')" by simp
    then show ?thesis by (rule Cons.IH)
  next
    case False
    define name where "name = resolved E (soName p)"
    from False obtain err w3 where
      tr: "trace w3 = trace w @ [os_Stat_ev (soName p),
             Logf_ev (''Loading Dynamic Plugin: '' @ name), plugin_Open_ev name err]"
      and eq: "loadEach E (p # ps) w =
         (case err of
            Some e \<Rightarrow> (Some (Errorf ''opening plugin: '' (Lib e)), w3)
          | None \<Rightarrow> loadEach E ps w3)"
      unfolding name_def by (rule loadEach_step)
    let ?two = "[os_Stat_ev (soName p), Logf_ev (''Loading Dynamic Plugin: '' @ name)]"
    show ?thesis
    proof (cases err)
      case (Some e)
      with eq Cons.prems have r: "r = Some (Errorf ''opening plugin: '' (Lib e))" and w: "w' = w3"
        by simp_all
      have t: "trace w' = trace w @ (?two @ [plugin_Open_ev name (Some e)])"
        using tr Some w by simp
      have l: "list_all is_load (?two @ [plugin_Open_ev name (Some e)])"
        by simp
      have "\<forall>ev\<in>set ?two. failed_call ev = None"
        by simp
      then have "\<exists>pre n e'. ?two @ [plugin_Open_ev name (Some e)] = pre @ [plugin_Open_ev n (Some e')] \<and>
             Errorf ''opening plugin: '' (Lib e) = Errorf ''opening plugin: '' (Lib e') \<and>
             (\<forall>ev\<in>set pre. failed_call ev = None)"
        by blast
      with t l show ?thesis
        unfolding r by (intro exI [of _ "?two @ [plugin_Open_ev name (Some e)]"]) simp
    next
      case None
      with eq Cons.prems have "loadEach E ps w3 = (r, w')" by simp
      from Cons.IH [OF this] obtain evs where
        t: "trace w' = trace w3 @ evs" and l: "list_all is_load evs"
        and c: "case r of
            None \<Rightarrow> (\<forall>ev\<in>set evs. failed_call ev = None)
          | Some err \<Rightarrow>
              (\<exists>pre name e. evs = pre @ [plugin_Open_ev name (Some e)] \<and>
                 err = Errorf ''opening plugin: '' (Lib e) \<and>
                 (\<forall>ev\<in>set pre. failed_call ev = None))"
        by blast
      let ?three = "?two @ [plugin_Open_ev name None]"
      have t': "trace w' = trace w @ (?three @ evs)"
        using t tr None by simp
      have l': "list_all is_load (?three @ evs)"
        using l by simp
      have ok: "\<forall>ev\<in>set ?three. failed_call ev = None"
        by simp
      show ?thesis
      proof (cases r)
        case None
        with c ok have "\<forall>ev\<in>set (?three @ evs). failed_call ev = None"
          by auto
        with t' l' None show ?thesis
          by (intro exI [of _ "?three @ evs"]) simp
      next
        case (Some err')
        with c obtain pre n e where
          e: "evs = pre @ [plugin_Open_ev n (Some e)]"
          and r: "err' = Errorf ''opening plugin: '' (Lib e)"
          and p: "\<forall>ev\<in>set pre. failed_call ev = None"
          by auto
        have "?three @ evs = (?three @ pre) @ [plugin_Open_ev n (Some e)]"
          using e by simp
        moreover have "\<forall>ev\<in>set (?three @ pre). failed_call ev = None"
          using p ok by auto
        ultimately have "\<exists>pre name e. ?three @ evs = pre @ [plugin_Open_ev name (Some e)] \<and>
             err' = Errorf ''opening plugin: '' (Lib e) \<and>
             (\<forall>ev\<in>set pre. failed_call ev = None)"
          using r by blast
        with t' l' Some show ?thesis
          by (intro exI [of _ "?three @ evs"]) simp
      qed
    qed
  qed
qed

lemma failed_last:
  assumes "pre @ x # post = pre0 @ [y]" "failed_call x \<noteq> None"
    "\<forall>ev\<in>set pre0. failed_call ev = None"
  shows "post = [] \<and> x = y"
proof (cases post rule: rev_cases)
  case Nil
  with assms(1) show ?thesis by simp
next
  case (snoc post' z)
  with assms(1) have "(pre @ x # post') @ [z] = pre0 @ [y]" by simp
  then have "pre @ x # post' = pre0" by (simp only: append1_eq_conv)
  then have "x \<in> set pre0" by auto
  with assms(2,3) show ?thesis by auto
qed


lemma stat_names_append: "stat_names (a @ b) = stat_names a @ stat_names b"
  by (induction a rule: stat_names.induct) simp_all

lemma log_lines_append: "log_lines (a @ b) = log_lines a @ log_lines b"
  by (induction a rule: log_lines.induct) simp_all

lemma open_names_append: "open_names (a @ b) = open_names a @ open_names b"
  by (induction a rule: open_names.induct) simp_all

lemma loadEach_names:
  "loadEach E ps w = (r, w') \<Longrightarrow>
   \<exists>evs k. trace w' = trace w @ evs \<and> k \<le> length ps \<and>
     stat_names evs = map soName (loadable (take k ps)) \<and>
     log_lines evs =
       map (\<lambda>q. ''Loading Dynamic Plugin: '' @ resolved E (soName q)) (loadable (take k ps)) \<and>
     open_names evs = map (\<lambda>q. resolved E (soName q)) (loadable (take k ps)) \<and>
     (inputs w', outputs w') = registered E (open_names evs) (inputs w, outputs w) \<and>
     (r = None \<longrightarrow> k = length ps)"
proof (induction ps arbitrary: w)
  case Nil
  then show ?case by (simp add: loadable_def)
next
  case (Cons p ps)
  show ?case
  proof (cases "soName p = ''.so''")
    case True
    with Cons.prems have "loadEach E ps w = (r, w')" by simp
    from Cons.IH [OF this] obtain evs k where
      "trace w' = trace w @ evs" "k \<le> length ps"
      "stat_names evs = map soName (loadable (take k ps))"
      "log_lines evs =
         map (\<lambda>q. ''Loading Dynamic Plugin: '' @ resolved E (soName q)) (loadable (take k ps))"
      "open_names evs = map (\<lambda>q. resolved E (soName q)) (loadable (take k ps))"
      "(inputs w', outputs w') = registered E (open_names evs) (inputs w, outputs w)"
      "r = None \<longrightarrow> k = length ps"
      by blast
    with True show ?thesis
      by (intro exI [of _ evs] exI [of _ "Suc k"]) (simp add: loadable_def)
  next
    case False
    from False obtain err w3 where
      tr: "trace w3 = trace w @ [os_Stat_ev (soName p),
             Logf_ev (''Loading Dynamic Plugin: '' @ resolved E (soName p)),
             plugin_Open_ev (resolved E (soName p)) err]"
      and eq: "loadEach E (p # ps) w =
         (case err of
            Some e \<Rightarrow> (Some (Errorf ''opening plugin: '' (Lib e)), w3)
          | None \<Rightarrow> loadEach E ps w3)"
      and rg: "(inputs w3, outputs w3) =
         snd (plugin_Open E (resolved E (soName p)) (inputs w, outputs w))"
      by (rule loadEach_step)
    let ?three = "[os_Stat_ev (soName p),
             Logf_ev (''Loading Dynamic Plugin: '' @ resolved E (soName p)),
             plugin_Open_ev (resolved E (soName p)) err]"
    show ?thesis
    proof (cases err)
      case (Some e)
      with eq Cons.prems have "r \<noteq> None" "w' = w3" by auto
      with tr rg False show ?thesis
        by (intro exI [of _ ?three] exI [of _ 1]) (auto simp: loadable_def)
    next
      case None
      with eq Cons.prems have "loadEach E ps w3 = (r, w')" by simp
      from Cons.IH [OF this] obtain evs k where
        t: "trace w' = trace w3 @ evs" and k: "k \<le> length ps"
        and s: "stat_names evs = map soName (loadable (take k ps))"
        and l: "log_lines evs =
           map (\<lambda>q. ''Loading Dynamic Plugin: '' @ resolved E (soName q)) (loadable (take k ps))"
        and opn: "open_names evs = map (\<lambda>q. resolved E (soName q)) (loadable (take k ps))"
        and rs: "(inputs w', outputs w') = registered E (open_names evs) (inputs w3, outputs w3)"
        and f: "r = None \<longrightarrow> k = length ps"
        by blast
      have lp: "loadable (take (Suc k) (p # ps)) = p # loadable (take k ps)"
        using False by (simp add: loadable_def)
      have "trace w' = trace w @ (?three @ evs)"
        using t tr by simp
      moreover have "stat_names (?three @ evs) = map soName (loadable (take (Suc k) (p # ps)))"
        unfolding lp stat_names_append using s by simp
      moreover have "log_lines (?three @ evs) =
          map (\<lambda>q. ''Loading Dynamic Plugin: '' @ resolved E (soName q))
            (loadable (take (Suc k) (p # ps)))"
        unfolding lp log_lines_append using l by simp
      moreover have "open_names (?three @ evs) =
          map (\<lambda>q. resolved E (soName q)) (loadable (take (Suc k) (p # ps)))"
        unfolding lp open_names_append using opn by simp
      moreover have "(inputs w', outputs w') =
          registered E (open_names (?three @ evs)) (inputs w, outputs w)"
        using rs rg by (simp add: open_names_append)
      ultimately show ?thesis
        using k f by (intro exI [of _ "?three @ evs"] exI [of _ "Suc k"]) simp
    qed
  qed
qed

lemma events_since_append: "trace w' = trace w @ evs \<Longrightarrow> events_since w w' = evs"
  by (simp add: events_since_def)

lemma LoadPlugins_cases:
  obtains "Config_Poller u = None" "LoadPlugins E u w = (Panic, w)"
  | cfg r w' where "Config_Poller u = Some cfg" "loadEach E (Plugins cfg) w = (r, w')"
      "LoadPlugins E u w = (Return r, w')"
proof (cases "Config_Poller u")
  case None
  then show ?thesis by (intro that(1)) (simp_all add: LoadPlugins_def)
next
  case (Some cfg)
  obtain r w' where "loadEach E (Plugins cfg) w = (r, w')"
    by (cases "loadEach E (Plugins cfg) w")
  with Some show ?thesis by (intro that(2) [of cfg r w']) (simp_all add: LoadPlugins_def)
qed

lemma LoadPlugins_names:
  assumes "LoadPlugins E u w = (out, w')" "Config_Poller u = Some cfg"
  shows "\<exists>k. k \<le> length (Plugins cfg) \<and>
     stat_names (events_since w w') = map soName (loadable (take k (Plugins cfg))) \<and>
     log_lines (events_since w w') =
       map (\<lambda>q. ''Loading Dynamic Plugin: '' @ resolved E (soName q))
         (loadable (take k (Plugins cfg))) \<and>
     open_names (events_since w w') =
       map (\<lambda>q. resolved E (soName q)) (loadable (take k (Plugins cfg))) \<and>
     (inputs w', outputs w') =
       registered E (open_names (events_since w w')) (inputs w, outputs w) \<and>
     (out = Return None \<longrightarrow> k = length (Plugins cfg))"
proof -
  obtain r where le: "loadEach E (Plugins cfg) w = (r, w')" and out: "out = Return r"
    using assms by (cases "loadEach E (Plugins cfg) w") (simp add: LoadPlugins_def)
  from loadEach_names [OF le] obtain evs k where
    t: "trace w' = trace w @ evs" and rest: "k \<le> length (Plugins cfg)"
      "stat_names evs = map soName (loadable (take k (Plugins cfg)))"
      "log_lines evs =
         map (\<lambda>q. ''Loading Dynamic Plugin: '' @ resolved E (soName q))
           (loadable (take k (Plugins cfg)))"
      "open_names evs = map (\<lambda>q. resolved E (soName q)) (loadable (take k (Plugins cfg)))"
      "(inputs w', outputs w') = registered E (open_names evs) (inputs w, outputs w)"
      "r = None \<longrightarrow> k = length (Plugins cfg)"
    by blast
  from events_since_append [OF t] rest out show ?thesis
    by (intro exI [of _ k]) simp
qed

text \<open>
  C4, as the claim states it, fails in its first part: only one trailing \<open>.so\<close> is
  taken off before one is put on, so a declared path with two keeps both. The name
  loaded for \<open>foo.so.so\<close> is \<open>foo.so.so\<close>, which still ends in \<open>.so\<close> with
  one \<open>.so\<close> taken off.
\<close>

theorem soName_two_suffixes_counterexample:
  "soName ''foo.so.so'' = ''foo.so.so'' \<and>
   HasSuffix (TrimSuffix (soName ''foo.so.so'') ''.so'') ''.so''"
  by (simp add: soName_def TrimSuffix_def HasSuffix_def)

text \<open>
  C4, amended. For every declared dynamic plugin path, loading normalizes the path by
  taking off one trailing \<open>.so\<close>, if there is one, and putting \<open>.so\<close> on: a path
  that ends in \<open>.so\<close> stays as it is and any other path gets \<open>.so\<close> appended, so
  the name always ends in \<open>.so\<close>, and \<open>foo\<close> and \<open>foo.so\<close> both resolve to
  \<open>foo.so\<close>. A path whose normalization is just \<open>.so\<close> (the empty path and
  \<open>.so\<close> itself) is skipped: the loader goes on with the next path from the same
  state, with no call made, no error and nothing changed. For the other paths, in the
  order they are declared and up to the first that fails to open (all of them when
  \<^verbatim>\<open>LoadPlugins\<close> returns nil), the loader looks for exactly the normalized name
  with \<^verbatim>\<open>os.Stat\<close>, and logs and opens that name, or that name under the default
  directory when it does not exist.
\<close>

theorem soName_normalizes:
  "soName p = (if HasSuffix p ''.so'' then p else p @ ''.so'') \<and>
   HasSuffix (soName p) ''.so'' \<and>
   soName ''foo'' = ''foo.so'' \<and> soName ''foo.so'' = ''foo.so'' \<and>
   (soName p = ''.so'' \<longleftrightarrow> p = [] \<or> p = ''.so'') \<and>
   (soName p = ''.so'' \<longrightarrow> loadEach E (p # ps) w = loadEach E ps w) \<and>
   (soName p = ''.so'' \<and> Config_Poller u = Some cfg \<and> Plugins cfg = [p] \<longrightarrow>
      LoadPlugins E u w = (Return None, w)) \<and>
   (LoadPlugins E u w = (out, w') \<and> Config_Poller u = Some cfg \<longrightarrow>
      (\<exists>k. k \<le> length (Plugins cfg) \<and>
         stat_names (events_since w w') = map soName (loadable (take k (Plugins cfg))) \<and>
         log_lines (events_since w w') =
           map (\<lambda>q. ''Loading Dynamic Plugin: '' @ resolved E (soName q))
             (loadable (take k (Plugins cfg))) \<and>
         open_names (events_since w w') =
           map (\<lambda>q. resolved E (soName q)) (loadable (take k (Plugins cfg))) \<and>
         (out = Return None \<longrightarrow> k = length (Plugins cfg))))"
proof -
  have "HasSuffix (soName p) ''.so''"
    using HasSuffix_append [of p "''.so''"] by (simp add: soName_eq)
  moreover have "soName ''foo'' = ''foo.so''" "soName ''foo.so'' = ''foo.so''"
    by (simp_all add: soName_def TrimSuffix_def HasSuffix_def)
  moreover have "soName p = ''.so'' \<and> Config_Poller u = Some cfg \<and> Plugins cfg = [p] \<longrightarrow>
      LoadPlugins E u w = (Return None, w)"
    by (simp add: LoadPlugins_def)
  moreover have "soName p = ''.so'' \<longrightarrow> loadEach E (p # ps) w = loadEach E ps w"
    by simp
  moreover note soName_eq [of p] soName_skipped [of p] LoadPlugins_names [of E u w out w' cfg]
  ultimately show ?thesis by blast
qed

theorem soName_normalizes_witness:
  "soName ''.so'' = ''.so'' \<and>
   loadEach E0 [''.so'', ''foo''] w0 = loadEach E0 [''foo''] w0 \<and>
   LoadPlugins E0
     (u0\<lparr>Config_Poller := Some \<lparr>Plugins = [''.so''], Debug = False, Quiet = False\<rparr>\<rparr>) w0
     = (Return None, w0) \<and>
   soName ''unifi.so'' = ''unifi.so'' \<and> soName ''unifi'' = ''unifi.so'' \<and>
   LoadPlugins E0 u8 w0 = (Return (Some (Errorf ''opening plugin: '' (Lib ''not a plugin''))), w8) \<and>
   stat_names (events_since w0 w8) = [''foo.so'', ''bad.so''] \<and>
   open_names (events_since w0 w8) = [''/usr/lib/unpoller/foo.so'', ''/usr/lib/unpoller/bad.so''] \<and>
   (\<exists>k. k \<le> length [''foo'', ''bad.so'', ''baz''] \<and>
      stat_names (events_since w0 w8) = map soName (loadable (take k [''foo'', ''bad.so'', ''baz''])) \<and>
      open_names (events_since w0 w8) =
        map (\<lambda>q. resolved E0 (soName q)) (loadable (take k [''foo'', ''bad.so'', ''baz''])))"
proof -
  let ?cfg = "\<lparr>Plugins = [''.so''], Debug = False, Quiet = False\<rparr>"
  let ?u = "u0\<lparr>Config_Poller := Some ?cfg\<rparr>"
  let ?c8 = "\<lparr>Plugins = [''foo'', ''bad.so'', ''baz''], Debug = False, Quiet = False\<rparr>"
  let ?r = "Return (Some (Errorf ''opening plugin: '' (Lib ''not a plugin'')))"
  have s: "soName ''.so'' = ''.so''"
    by (simp add: soName_def TrimSuffix_def HasSuffix_def)
  have p: "Config_Poller ?u = Some ?cfg" "Plugins ?cfg = [''.so'']"
    by simp_all
  have h: "HasSuffix ''unifi.so'' ''.so''" "\<not> HasSuffix ''unifi'' ''.so''"
    by (simp_all add: HasSuffix_def)
  note n = soName_normalizes [of "''.so''" E0 "[''foo'']" w0 ?u ?cfg]
  have a: "loadEach E0 [''.so'', ''foo''] w0 = loadEach E0 [''foo''] w0"
    by (rule n [THEN conjunct2, THEN conjunct2, THEN conjunct2, THEN conjunct2,
          THEN conjunct2, THEN conjunct1, THEN mp, OF s])
  have b: "LoadPlugins E0 ?u w0 = (Return None, w0)"
    using s p
    by (intro n [THEN conjunct2, THEN conjunct2, THEN conjunct2, THEN conjunct2,
          THEN conjunct2, THEN conjunct2, THEN conjunct1, THEN mp] conjI)
  from soName_normalizes [of "''unifi.so''", THEN conjunct1] h(1)
  have c: "soName ''unifi.so'' = ''unifi.so''" by simp
  from soName_normalizes [of "''unifi''", THEN conjunct1] h(2)
  have d: "soName ''unifi'' = ''unifi.so''" by simp
  have run: "LoadPlugins E0 u8 w0 = (?r, w8)"
    by code_simp
  have cf: "Config_Poller u8 = Some ?c8"
    by (simp add: u8_def)
  have e: "stat_names (events_since w0 w8) = [''foo.so'', ''bad.so'']"
    by code_simp
  have f: "open_names (events_since w0 w8) =
      [''/usr/lib/unpoller/foo.so'', ''/usr/lib/unpoller/bad.so'']"
    by code_simp
  note m = soName_normalizes [of _ E0 _ w0 u8 ?c8 ?r w8, THEN conjunct2, THEN conjunct2,
      THEN conjunct2, THEN conjunct2, THEN conjunct2, THEN conjunct2, THEN conjunct2, THEN mp,
      OF conjI, OF run cf]
  from m obtain k where k: "k \<le> length (Plugins ?c8)"
    "stat_names (events_since w0 w8) = map soName (loadable (take k (Plugins ?c8)))"
    "open_names (events_since w0 w8) =
       map (\<lambda>q. resolved E0 (soName q)) (loadable (take k (Plugins ?c8)))"
    by (elim exE conjE)
  then have g: "\<exists>k. k \<le> length [''foo'', ''bad.so'', ''baz''] \<and>
      stat_names (events_since w0 w8) = map soName (loadable (take k [''foo'', ''bad.so'', ''baz''])) \<and>
      open_names (events_since w0 w8) =
        map (\<lambda>q. resolved E0 (soName q)) (loadable (take k [''foo'', ''bad.so'', ''baz'']))"
    by (intro exI [of _ k]) simp
  from s a b c d run e f g show ?thesis
    by (intro conjI)
qed

text \<open>
  C8. Whenever opening a module fails while \<^verbatim>\<open>LoadPlugins\<close> runs, that call is the
  last thing the run does (no later path of the list is looked for, logged or opened),
  and \<^verbatim>\<open>LoadPlugins\<close> returns an error that wraps the cause of the failure. A run
  that returns an error ends with such a failed call.
\<close>

theorem LoadPlugins_first_failure:
  "LoadPlugins E u w = (out, w') \<longrightarrow>
   trace w' = trace w @ events_since w w' \<and>
   (\<forall>pre name e post. events_since w w' = pre @ plugin_Open_ev name (Some e) # post \<longrightarrow>
      post = [] \<and> out = Return (Some (Errorf ''opening plugin: '' (Lib e))) \<and>
      (\<forall>err. out = Return (Some err) \<longrightarrow> Unwrap err = Some (Lib e))) \<and>
   (\<forall>err. out = Return (Some err) \<longrightarrow>
      (\<exists>pre name e. events_since w w' = pre @ [plugin_Open_ev name (Some e)]))"
proof
  assume lp: "LoadPlugins E u w = (out, w')"
  show "trace w' = trace w @ events_since w w' \<and>
   (\<forall>pre name e post. events_since w w' = pre @ plugin_Open_ev name (Some e) # post \<longrightarrow>
      post = [] \<and> out = Return (Some (Errorf ''opening plugin: '' (Lib e))) \<and>
      (\<forall>err. out = Return (Some err) \<longrightarrow> Unwrap err = Some (Lib e))) \<and>
   (\<forall>err. out = Return (Some err) \<longrightarrow>
      (\<exists>pre name e. events_since w w' = pre @ [plugin_Open_ev name (Some e)]))"
  proof (cases rule: LoadPlugins_cases [of u E w])
    case 1
    with lp have "out = Panic" "w' = w" by simp_all
    then show ?thesis by (simp add: events_since_def)
  next
    case (2 cfg r w'')
    with lp have out: "out = Return r" and w: "w'' = w'" by simp_all
    from loadEach_events [OF 2(2)] w obtain evs where
      t: "trace w' = trace w @ evs"
      and c: "case r of
          None \<Rightarrow> (\<forall>ev\<in>set evs. failed_call ev = None)
        | Some err \<Rightarrow>
            (\<exists>pre name e. evs = pre @ [plugin_Open_ev name (Some e)] \<and>
               err = Errorf ''opening plugin: '' (Lib e) \<and>
               (\<forall>ev\<in>set pre. failed_call ev = None))"
      by blast
    from t have s: "events_since w w' = evs"
      by (rule events_since_append)
    have a: "post = [] \<and> r = Some (Errorf ''opening plugin: '' (Lib e)) \<and>
             (\<forall>err. r = Some err \<longrightarrow> Unwrap err = Some (Lib e))"
      if d: "evs = pre @ plugin_Open_ev name (Some e) # post" for pre name e post
    proof (cases r)
      case None
      with c d have "failed_call (plugin_Open_ev name (Some e)) = None" by simp
      then show ?thesis by simp
    next
      case (Some err)
      with c obtain pre0 n0 e0 where
        e: "evs = pre0 @ [plugin_Open_ev n0 (Some e0)]"
        and r: "err = Errorf ''opening plugin: '' (Lib e0)"
        and p: "\<forall>ev\<in>set pre0. failed_call ev = None"
        by auto
      from d e have "pre @ plugin_Open_ev name (Some e) # post = pre0 @ [plugin_Open_ev n0 (Some e0)]"
        by simp
      from failed_last [OF this _ p]
      have "post = [] \<and> plugin_Open_ev name (Some e) = plugin_Open_ev n0 (Some e0)"
        by simp
      with Some r show ?thesis by simp
    qed
    have b: "\<exists>pre name e. evs = pre @ [plugin_Open_ev name (Some e)]" if "r = Some err" for err
      using c that by auto
    from t a b show ?thesis
      unfolding s out by (simp only: outcome.inject) blast
  qed
qed

theorem LoadPlugins_first_failure_witness:
  "LoadPlugins E0 u8 w0 =
     (Return (Some (Errorf ''opening plugin: '' (Lib ''not a plugin''))), w8) \<and>
   (\<exists>pre name e. events_since w0 w8 = pre @ [plugin_Open_ev name (Some e)]) \<and>
   Unwrap (Errorf ''opening plugin: '' (Lib ''not a plugin'')) = Some (Lib ''not a plugin'')"
proof -
  let ?r = "Errorf ''opening plugin: '' (Lib ''not a plugin'')"
  have run: "LoadPlugins E0 u8 w0 = (Return (Some ?r), w8)"
    by code_simp
  note x = LoadPlugins_first_failure [of E0 u8 w0 "Return (Some ?r)" w8, THEN mp, OF run]
  from x have "\<forall>err. Return (Some ?r) = Return (Some err) \<longrightarrow>
      (\<exists>pre name e. events_since w0 w8 = pre @ [plugin_Open_ev name (Some e)])"
    by (elim conjE)
  then have "\<exists>pre name e. events_since w0 w8 = pre @ [plugin_Open_ev name (Some e)]"
    by (elim allE [of _ ?r] impE) (rule refl)
  with run show ?thesis by (intro conjI) simp_all
qed

section \<open>The pipeline\<close>






lemma plugin_parse_steps:
  "list_all is_plugin_parse evs \<Longrightarrow>
   steps h evs = replicate (length evs) (plugin_step h) \<and> held_after h evs = h"
proof (induction evs arbitrary: h)
  case Nil
  then show ?case by simp
next
  case (Cons ev evs)
  then show ?case by (cases ev rule: is_plugin_parse.cases) simp_all
qed






















end
